theory Spec2Isabelle
  imports Main "HOL-Library.AList"
begin

section \<open>JavaScript values used by the supervisor\<close>

text \<open>
  The program is \<^verbatim>\<open>src/index.ts\<close>, a command line tool that starts, stops and inspects
  named child processes. Its state lives in three places: the pid files in the working
  directory, the module level object \<^verbatim>\<open>childProcesses\<close>, and the operating system.
  All three are fields of one record that every operation takes and returns.

  JavaScript strings are modelled as \<^typ>\<open>string\<close>. An environment object
  (\<^verbatim>\<open>{ [key: string]: string }\<close>) is a map from names to values, and the object spread
  \<^verbatim>\<open>{...a, ...b}\<close> is \<^term>\<open>a ++ b\<close>: the right operand wins on a shared key.
\<close>

type_synonym env = "string \<rightharpoonup> string"

subsection \<open>Properties inherited from \<^verbatim>\<open>Object.prototype\<close>\<close>

text \<open>
  \<^verbatim>\<open>commandsConfig\<close>, \<^verbatim>\<open>childProcesses\<close> and \<^verbatim>\<open>envVars\<close> are plain objects, so
  \<^verbatim>\<open>obj[name]\<close> falls back to \<^verbatim>\<open>Object.prototype\<close> when \<^verbatim>\<open>obj\<close> has no own property
  \<^verbatim>\<open>name\<close>. These are the property names found there; every one of them yields a truthy
  value (a function, or the prototype object itself for \<^verbatim>\<open>__proto__\<close>).
\<close>

definition prototype_functions :: "string list" where
  "prototype_functions =
     [''__defineGetter__'', ''__defineSetter__'', ''hasOwnProperty'', ''__lookupGetter__'',
      ''__lookupSetter__'', ''isPrototypeOf'', ''propertyIsEnumerable'', ''toString'',
      ''valueOf'', ''toLocaleString'']"

definition inherited :: "string \<Rightarrow> bool" where
  "inherited name \<longleftrightarrow>
     name = ''constructor'' \<or> name = ''__proto__'' \<or> name \<in> set prototype_functions"

text \<open>
  The text that \<^verbatim>\<open>String.prototype.replace\<close> produces when its callback returns an inherited
  value instead of a string.
\<close>

definition inherited_text :: "string \<Rightarrow> string" where
  "inherited_text name =
     (if name = ''constructor'' then ''function Object() { [native code] }''
      else if name = ''__proto__'' then ''[object Object]''
      else ''function '' @ name @ ''() { [native code] }'')"

subsection \<open>\<^verbatim>\<open>parseInt(text, 10)\<close> and \<^verbatim>\<open>Number.prototype.toString\<close>\<close>

definition is_digit :: "char \<Rightarrow> bool" where
  "is_digit c \<longleftrightarrow> c \<in> set ''0123456789''"

definition is_space :: "char \<Rightarrow> bool" where
  "is_space c \<longleftrightarrow> c \<in> {CHR 0x09, CHR 0x0A, CHR 0x0B, CHR 0x0C, CHR 0x0D, CHR '' ''}"

definition digit_value :: "char \<Rightarrow> int" where
  "digit_value c = int (of_char c) - 48"

definition digits_value :: "string \<Rightarrow> int" where
  "digits_value ds = foldl (\<lambda>acc c. 10 * acc + digit_value c) 0 ds"

text \<open>
  \<^verbatim>\<open>parseInt\<close> skips leading white space (the ASCII white space characters here), reads an
  optional sign and then the longest run of decimal digits, ignoring whatever follows.
  \<^term>\<open>None\<close> is \<^verbatim>\<open>NaN\<close>: there was no digit to read.
\<close>

definition parseInt :: "string \<Rightarrow> int option" where
  "parseInt text =
     (let s = dropWhile is_space text;
          (neg, r) = (case s of
                        c # cs \<Rightarrow> if c = CHR ''-'' then (True, cs)
                                  else if c = CHR ''+'' then (False, cs) else (False, s)
                      | [] \<Rightarrow> (False, s));
          ds = takeWhile is_digit r
      in if ds = [] then None
         else Some (if neg then - digits_value ds else digits_value ds))"

fun digits10 :: "nat \<Rightarrow> string" where
  "digits10 n =
     (if n < 10 then [char_of (48 + n)] else digits10 (n div 10) @ [char_of (48 + n mod 10)])"

declare digits10.simps [simp del]

definition toString :: "int \<Rightarrow> string" where
  "toString i = (if i < 0 then CHR ''-'' # digits10 (nat (- i)) else digits10 (nat i))"

section \<open>Environment resolution\<close>

text \<open>
  \<^verbatim>\<open>envVars[varName] || ""\<close>: the own property when there is one (an empty value is falsy and
  gives the empty string all the same), else the inherited property, else \<^verbatim>\<open>undefined\<close>,
  which is falsy.
\<close>

definition env_get :: "env \<Rightarrow> string \<Rightarrow> string" where
  "env_get envVars varName =
     (case envVars varName of
        Some v \<Rightarrow> v
      | None \<Rightarrow> if inherited varName then inherited_text varName else [])"

definition is_word :: "char \<Rightarrow> bool" where
  "is_word c \<longleftrightarrow>
     c \<in> set ''abcdefghijklmnopqrstuvwxyzABCDEFGHIJKLMNOPQRSTUVWXYZ0123456789_''"

text \<open>
  \<^verbatim>\<open>arg.replace(/\$\{(\w+)\}/g, (_match, varName) => envVars[varName] || "")\<close>.
  The scan goes left to right. A match at a position is a dollar sign, an opening brace,
  the maximal non-empty run of word characters and a closing brace; the run must be
  maximal because the closing brace is no word character. After a match the scan resumes
  behind it, and the replacement text is not scanned again.
\<close>

function substitute :: "env \<Rightarrow> string \<Rightarrow> string" where
  "substitute envVars [] = []"
| "substitute envVars (c # cs) =
     (case (c # cs) of
        a # b # rest \<Rightarrow>
          (let varName = takeWhile is_word rest; after = dropWhile is_word rest
           in if a = CHR ''$'' \<and> b = CHR ''{'' \<and> varName \<noteq> [] \<and> after \<noteq> []
                 \<and> hd after = CHR ''}''
              then env_get envVars varName @ substitute envVars (tl after)
              else c # substitute envVars cs)
      | _ \<Rightarrow> c # substitute envVars cs)"
  by pat_completeness auto
termination
proof (relation "measure (\<lambda>(e, s). length s)")
  show "wf (measure (\<lambda>(e :: env, s :: string). length s))" by simp
next
  fix envVars :: env and c :: char and cs x21 x22 x21a x22a x xa
  assume "c # cs = x21 # x22" and "x22 = x21a # x22a"
    and "xa = dropWhile is_word x22a"
  then have "length (tl xa) < length (c # cs)"
    using length_dropWhile_le [of is_word x22a] by (cases xa) auto
  then show "((envVars, tl xa), (envVars, c # cs)) \<in> measure (\<lambda>(e, s). length s)"
    by simp
qed auto

declare substitute.simps [simp del]

section \<open>Configuration and state\<close>

record CommandConfig =
  command :: string
  args :: "string list option"
  env :: "env option"
  restart_on_fail :: "bool option"

text \<open>
  The module level constants of one invocation. \<^verbatim>\<open>commandsConfig\<close> is the list of the
  own properties of \<^verbatim>\<open>config.commands\<close> in the order \<^verbatim>\<open>Object.keys\<close> enumerates them;
  \<^verbatim>\<open>defaultEnv\<close> is \<^verbatim>\<open>config.env\<close>, or the empty object when the file has none;
  \<^verbatim>\<open>process_env\<close> is \<^verbatim>\<open>process.env\<close>.
\<close>

record settings =
  commandsConfig :: "(string \<times> CommandConfig) list"
  defaultEnv :: env
  process_env :: env

text \<open>
  The result of \<^verbatim>\<open>obj[name]\<close> on a plain object whose own properties are all objects:
  the own property, a property of \<^verbatim>\<open>Object.prototype\<close>, or \<^verbatim>\<open>undefined\<close>. Only the
  last is falsy.
\<close>

datatype 'a property = Undefined | Inherited | Own 'a

definition get_property :: "(string \<times> 'a) list \<Rightarrow> string \<Rightarrow> 'a property" where
  "get_property obj name =
     (case map_of obj name of
        Some v \<Rightarrow> Own v
      | None \<Rightarrow> if inherited name then Inherited else Undefined)"

definition truthy :: "'a property \<Rightarrow> bool" where
  "truthy p = (case p of Undefined \<Rightarrow> False | _ \<Rightarrow> True)"

definition Object_keys :: "(string \<times> 'a) list \<Rightarrow> string list" where
  "Object_keys obj = map fst obj"

datatype signal = SIGTERM

text \<open>
  A \<^verbatim>\<open>ChildProcess\<close> object as \<^verbatim>\<open>spawn\<close> returns it, with what it was spawned from and
  what its \<^verbatim>\<open>exit\<close> listener closes over (\<^verbatim>\<open>name\<close>, \<^verbatim>\<open>cmdConfig\<close>; the listener's
  \<^verbatim>\<open>detach\<close> is the flag \<^verbatim>\<open>detached\<close> was set from). \<^verbatim>\<open>pid\<close> is \<^term>\<open>None\<close> when the
  operating system created no process. \<^verbatim>\<open>exit_seen\<close> says that the exit event was
  delivered, after which the object has no process handle left.
\<close>

record child =
  pid :: "int option"
  spawnfile :: string
  spawnargs :: "string list"
  spawnenv :: env
  detached :: bool
  handler_name :: string
  handler_config :: CommandConfig
  exit_seen :: bool

record inspectionData =
  i_name :: string
  i_status :: string
  i_pid :: "int option"
  i_config :: "CommandConfig option"
  i_globalEnv :: env
  i_combinedEnv :: env

text \<open>What the program prints, one constructor per \<^verbatim>\<open>console.log\<close> or \<^verbatim>\<open>console.error\<close>.\<close>

datatype message =
    CommandNotFound string
  | AlreadyRunning string
  | Started string int
  | FailedToStart string
  | ProcessExited string "int option" "string option"
  | Restarting string
  | NoPidFile string
  | Stopped string int
  | ErrorStopping string "int option"
  | ServicesStarted
  | ServicesStartedInBackground
  | NoServicesToStart
  | Inspection inspectionData
  | ShuttingDown

text \<open>
  The state. \<^verbatim>\<open>pidFiles name\<close> is the text of \<^verbatim>\<open><name>.pid\<close> in the working directory
  and \<^verbatim>\<open>openFds\<close> lists the log files opened for appending. \<^verbatim>\<open>children\<close> holds every
  \<^verbatim>\<open>ChildProcess\<close> object this invocation created, a position in it being the identity of
  the object, and \<^verbatim>\<open>childProcesses\<close> is the module level object of that name, from names
  to such positions, in insertion order. Of the operating system the state keeps
  \<^verbatim>\<open>signalable\<close>, the process ids to which this process can deliver a signal (the
  process exists and permission is granted), \<^verbatim>\<open>signals\<close>, the signals delivered so
  far, and \<^verbatim>\<open>spawnResults\<close>, the process ids that the coming calls of \<^verbatim>\<open>spawn\<close> will
  obtain (\<^term>\<open>None\<close> for a spawn that fails). Errors of the file system itself and the
  argument validation of \<^verbatim>\<open>spawn\<close> are not part of the model.
\<close>

record world =
  pidFiles :: "string \<rightharpoonup> string"
  openFds :: "string list"
  children :: "child list"
  childProcesses :: "(string \<times> nat) list"
  signalable :: "int set"
  signals :: "(int \<times> signal) list"
  spawnResults :: "int option list"
  console :: "message list"
  stdinResumed :: bool
  exited :: bool

definition say :: "message \<Rightarrow> world \<Rightarrow> world" where
  "say m w = w\<lparr>console := console w @ [m]\<rparr>"

definition unlinkSync :: "string \<Rightarrow> world \<Rightarrow> world" where
  "unlinkSync name w = w\<lparr>pidFiles := (pidFiles w)(name := None)\<rparr>"

section \<open>Operating system calls\<close>

text \<open>
  \<^verbatim>\<open>process.kill(pid, signal)\<close> returns normally exactly when \<^verbatim>\<open>pid\<close> is a number that
  equals \<^verbatim>\<open>pid | 0\<close> (\<^verbatim>\<open>NaN\<close> and numbers outside the 32 bit range are refused before any
  system call) and the operating system accepts the signal; it throws otherwise.
\<close>

definition kill_succeeds :: "world \<Rightarrow> int option \<Rightarrow> bool" where
  "kill_succeeds w pid' =
     (case pid' of
        None \<Rightarrow> False
      | Some p \<Rightarrow> - 2147483648 \<le> p \<and> p < 2147483648 \<and> p \<in> signalable w)"

text \<open>\<^verbatim>\<open>isRunning\<close>: signal 0 delivers nothing, so the state does not change.\<close>

definition isRunning :: "world \<Rightarrow> int option \<Rightarrow> bool" where
  "isRunning w pid' = kill_succeeds w pid'"

definition isProcessRunning :: "string \<Rightarrow> world \<Rightarrow> bool \<times> world" where
  "isProcessRunning name w =
     (case pidFiles w name of
        Some text \<Rightarrow>
          if isRunning w (parseInt text) then (True, w) else (False, unlinkSync name w)
      | None \<Rightarrow> (False, w))"

text \<open>
  \<^verbatim>\<open>spawn\<close> creates a \<^verbatim>\<open>ChildProcess\<close> object whether or not a process came to be, and
  returns it (here: its position). A created process can be signalled.
\<close>

definition spawn :: "child \<Rightarrow> world \<Rightarrow> nat \<times> world" where
  "spawn c w =
     (let r = (case spawnResults w of [] \<Rightarrow> None | x # _ \<Rightarrow> x)
      in (length (children w),
          w\<lparr>children := children w @ [c\<lparr>pid := r\<rparr>],
            spawnResults := tl (spawnResults w),
            signalable := (case r of None \<Rightarrow> signalable w | Some p \<Rightarrow> insert p (signalable w))\<rparr>))"

text \<open>
  \<^verbatim>\<open>ChildProcess.kill\<close> signals through the object's process handle and does not throw for
  a process that is gone: without a handle, or when the process no longer exists, it
  returns \<^verbatim>\<open>false\<close>.
\<close>

definition child_kill :: "nat \<Rightarrow> world \<Rightarrow> world" where
  "child_kill i w =
     (if i < length (children w) then
        (case pid (children w ! i) of
           Some p \<Rightarrow>
             if \<not> exit_seen (children w ! i) \<and> p \<in> signalable w
             then w\<lparr>signals := signals w @ [(p, SIGTERM)]\<rparr> else w
         | None \<Rightarrow> w)
      else w)"

section \<open>The supervisor\<close>

definition envVars :: "settings \<Rightarrow> CommandConfig \<Rightarrow> env" where
  "envVars S cmdConfig =
     process_env S ++ defaultEnv S ++ (case env cmdConfig of None \<Rightarrow> Map.empty | Some e \<Rightarrow> e)"

definition substitutedArgs :: "settings \<Rightarrow> CommandConfig \<Rightarrow> string list" where
  "substitutedArgs S cmdConfig =
     map (substitute (envVars S cmdConfig)) (case args cmdConfig of None \<Rightarrow> [] | Some a \<Rightarrow> a)"

text \<open>
  \<^verbatim>\<open>startProcess\<close>. The last case distinction has no third branch in the source: a
  \<^verbatim>\<open>cmdConfig\<close> that is inherited is found under a name for which \<^verbatim>\<open>childProcesses[name]\<close>
  is inherited and truthy as well, so the function has returned before.
\<close>

definition startProcess :: "settings \<Rightarrow> string \<Rightarrow> bool \<Rightarrow> world \<Rightarrow> world" where
  "startProcess S name detach w =
     (let cmdConfig = get_property (commandsConfig S) name in
      if \<not> truthy cmdConfig then say (CommandNotFound name) w
      else if truthy (get_property (childProcesses w) name) then say (AlreadyRunning name) w
      else
        (let (running, w1) = isProcessRunning name w in
         if running then say (AlreadyRunning name) w1
         else
           (case cmdConfig of
              Own c \<Rightarrow>
                (let w2 = w1\<lparr>openFds := openFds w1 @ [name, name]\<rparr>;
                     (i, w3) = spawn \<lparr>pid = None, spawnfile = command c,
                                      spawnargs = substitutedArgs S c, spawnenv = envVars S c,
                                      detached = detach, handler_name = name,
                                      handler_config = c, exit_seen = False\<rparr> w2;
                     w4 = w3\<lparr>childProcesses := AList.update name i (childProcesses w3)\<rparr>
                 in case pid (children w4 ! i) of
                      Some p \<Rightarrow>
                        say (Started name p) (w4\<lparr>pidFiles := (pidFiles w4)(name \<mapsto> toString p)\<rparr>)
                    | None \<Rightarrow> say (FailedToStart name) w4)
            | _ \<Rightarrow> w1)))"

text \<open>
  The listener that \<^verbatim>\<open>startProcess\<close> installs on the child for \<^verbatim>\<open>exit\<close>, run for the
  child at position \<^verbatim>\<open>i\<close> with the exit code and signal of the event.
\<close>

definition exit_listener ::
  "settings \<Rightarrow> nat \<Rightarrow> int option \<Rightarrow> string option \<Rightarrow> world \<Rightarrow> world" where
  "exit_listener S i code sig w =
     (let name = handler_name (children w ! i);
          w1 = say (ProcessExited name code sig) w;
          w2 = (if pidFiles w1 name \<noteq> None then unlinkSync name w1 else w1);
          w3 = w2\<lparr>childProcesses := AList.delete name (childProcesses w2)\<rparr>
      in if restart_on_fail (handler_config (children w ! i)) = Some True
         then startProcess S name (detached (children w ! i)) (say (Restarting name) w3)
         else w3)"

text \<open>
  The exit event of the child at position \<^verbatim>\<open>i\<close>: its process is gone, and the listener
  runs. There is no such event for an object without a process or one whose exit was
  delivered already.
\<close>

definition child_exit ::
  "settings \<Rightarrow> nat \<Rightarrow> int option \<Rightarrow> string option \<Rightarrow> world \<Rightarrow> world option" where
  "child_exit S i code sig w =
     (if i < length (children w) then
        (case pid (children w ! i) of
           Some p \<Rightarrow>
             if exit_seen (children w ! i) then None
             else Some (exit_listener S i code sig
                          (w\<lparr>children := (children w)[i := (children w ! i)\<lparr>exit_seen := True\<rparr>],
                             signalable := signalable w - {p}\<rparr>))
         | None \<Rightarrow> None)
      else None)"

text \<open>
  \<^verbatim>\<open>stopProcess\<close>. Everything after the read of the pid file is inside \<^verbatim>\<open>try\<close>: when
  \<^verbatim>\<open>process.kill\<close> throws, the rest of the block is skipped and the handler prints the
  error. For a name that \<^verbatim>\<open>childProcesses\<close> only inherits, the value has no method
  \<^verbatim>\<open>kill\<close>, and the call throws into the same handler.
\<close>

definition stopProcess :: "string \<Rightarrow> world \<Rightarrow> world" where
  "stopProcess name w =
     (case pidFiles w name of
        None \<Rightarrow> say (NoPidFile name) w
      | Some text \<Rightarrow>
          (case parseInt text of
             Some p \<Rightarrow>
               if kill_succeeds w (Some p) then
                 (let w1 = w\<lparr>signals := signals w @ [(p, SIGTERM)]\<rparr>;
                      w2 = unlinkSync name w1;
                      w3 = say (Stopped name p) w2
                  in case get_property (childProcesses w3) name of
                       Own i \<Rightarrow>
                         (let w4 = child_kill i w3
                          in w4\<lparr>childProcesses := AList.delete name (childProcesses w4)\<rparr>)
                     | Inherited \<Rightarrow> say (ErrorStopping name (Some p)) w3
                     | Undefined \<Rightarrow> w3)
               else say (ErrorStopping name (Some p)) w
           | None \<Rightarrow> say (ErrorStopping name None) w))"

text \<open>
  \<^verbatim>\<open>name ? [name] : Object.keys(commandsConfig)\<close>: an absent name and the empty string are
  falsy.
\<close>

definition services :: "settings \<Rightarrow> string option \<Rightarrow> string list" where
  "services S name =
     (case name of
        Some n \<Rightarrow> if n = [] then Object_keys (commandsConfig S) else [n]
      | None \<Rightarrow> Object_keys (commandsConfig S))"


definition stopProcesses :: "settings \<Rightarrow> string option \<Rightarrow> world \<Rightarrow> world" where
  "stopProcesses S name w = foldl (\<lambda>v serviceName. stopProcess serviceName v) w (services S name)"

definition restartProcesses :: "settings \<Rightarrow> string option \<Rightarrow> bool \<Rightarrow> world \<Rightarrow> world" where
  "restartProcesses S name detach w =
     foldl (\<lambda>v serviceName. startProcess S serviceName detach (stopProcess serviceName v))
       w (services S name)"

text \<open>
  \<^verbatim>\<open>inspectProcess\<close> prints the record below after healing a stale pid file. An inherited
  \<^verbatim>\<open>cmdConfig\<close> is a function without enumerable properties: the printed \<^verbatim>\<open>config\<close> holds
  the name alone and \<^verbatim>\<open>cmdConfig.env\<close> is undefined.
\<close>

definition inspection :: "settings \<Rightarrow> string \<Rightarrow> world \<Rightarrow> inspectionData" where
  "inspection S name w =
     (let cmdConfig = get_property (commandsConfig S) name;
          live = (case pidFiles w name of
                    Some text \<Rightarrow> isRunning w (parseInt text)
                  | None \<Rightarrow> False);
          processEnv = (case cmdConfig of
                          Own c \<Rightarrow> (case env c of None \<Rightarrow> Map.empty | Some e \<Rightarrow> e)
                        | _ \<Rightarrow> Map.empty)
      in \<lparr>i_name = name,
          i_status = (if live then ''running'' else ''stopped''),
          i_pid = (if live then parseInt (the (pidFiles w name)) else None),
          i_config = (case cmdConfig of Own c \<Rightarrow> Some c | _ \<Rightarrow> None),
          i_globalEnv = defaultEnv S,
          i_combinedEnv = defaultEnv S ++ processEnv\<rparr>)"

definition inspectProcess :: "settings \<Rightarrow> string \<Rightarrow> world \<Rightarrow> world" where
  "inspectProcess S name w =
     (if \<not> truthy (get_property (commandsConfig S) name) then say (CommandNotFound name) w
      else say (Inspection (inspection S name w)) (snd (isProcessRunning name w)))"

text \<open>The \<^verbatim>\<open>SIGINT\<close> listener: \<^verbatim>\<open>stopProcesses()\<close> without a name, then \<^verbatim>\<open>process.exit()\<close>.\<close>

definition sigint :: "settings \<Rightarrow> world \<Rightarrow> world" where
  "sigint S w = (stopProcesses S None (say ShuttingDown w))\<lparr>exited := True\<rparr>"

section \<open>States that the statements describe\<close>

text \<open>
  The state \<^verbatim>\<open>startProcess\<close> produces when it gets as far as \<^verbatim>\<open>spawn\<close>: the log file
  opened twice, the new \<^verbatim>\<open>ChildProcess\<close> object stored under the name, and a pid file
  and a message according to whether the operating system produced a pid.
\<close>

definition spawned :: "settings \<Rightarrow> string \<Rightarrow> bool \<Rightarrow> CommandConfig \<Rightarrow> world \<Rightarrow> world" where
  "spawned S n d c w =
     (let r = (case spawnResults w of [] \<Rightarrow> None | x # _ \<Rightarrow> x);
          w4 = w\<lparr>pidFiles := (pidFiles w)(n := None),
                 openFds := openFds w @ [n, n],
                 children := children w @
                   [\<lparr>pid = r, spawnfile = command c, spawnargs = substitutedArgs S c,
                     spawnenv = envVars S c, detached = d, handler_name = n,
                     handler_config = c, exit_seen = False\<rparr>],
                 spawnResults := tl (spawnResults w),
                 signalable := (case r of None \<Rightarrow> signalable w | Some q \<Rightarrow> insert q (signalable w)),
                 childProcesses := AList.update n (length (children w)) (childProcesses w)\<rparr>
      in case r of
           Some q \<Rightarrow> w4\<lparr>pidFiles := (pidFiles w4)(n \<mapsto> toString q),
                        console := console w4 @ [Started n q]\<rparr>
         | None \<Rightarrow> w4\<lparr>console := console w4 @ [FailedToStart n]\<rparr>)"

text \<open>
  The state the \<^verbatim>\<open>exit\<close> listener of the child at position \<^verbatim>\<open>i\<close> leaves before it
  considers a restart: the process is gone, the exit is printed, and the pid file and the
  \<^verbatim>\<open>childProcesses\<close> entry of the listener's name are removed.
\<close>

definition after_exit :: "nat \<Rightarrow> int option \<Rightarrow> string option \<Rightarrow> world \<Rightarrow> world" where
  "after_exit i code sig w =
     (let n = handler_name (children w ! i)
      in w\<lparr>children := (children w)[i := (children w ! i)\<lparr>exit_seen := True\<rparr>],
           signalable := (case pid (children w ! i) of None \<Rightarrow> signalable w
                          | Some p \<Rightarrow> signalable w - {p}),
           console := console w @ [ProcessExited n code sig],
           pidFiles := (pidFiles w)(n := None),
           childProcesses := AList.delete n (childProcesses w)\<rparr>)"

text \<open>
  The live operating system processes that stand for a name: the process that the pid
  file of the name records and the processes of the children that this invocation spawned
  for the name and has not seen exit, as far as they can be signalled. That at most one
  process is the supervised instance of a name reads \<open>card (instances name w) \<le> 1\<close>.
\<close>

definition instances :: "string \<Rightarrow> world \<Rightarrow> int set" where
  "instances name w =
     ((case pidFiles w name of
         Some content \<Rightarrow> (case parseInt content of Some p \<Rightarrow> {p} | None \<Rightarrow> {})
       | None \<Rightarrow> {})
      \<union> Option.these (pid ` {c \<in> set (children w). handler_name c = name \<and> \<not> exit_seen c}))
     \<inter> signalable w"

section \<open>Example configuration and states\<close>

text \<open>
  A configuration with two commands, and a few states of the working directory and the
  operating system that the statements below are evaluated on.
\<close>

definition web_config :: CommandConfig where
  "web_config = \<lparr>command = ''python'', args = Some [''${A}-${B}-${C}''],
                  env = Some [''B'' \<mapsto> ''y''], restart_on_fail = None\<rparr>"

definition db_config :: CommandConfig where
  "db_config = \<lparr>command = ''postgres'', args = None, env = None,
                 restart_on_fail = Some True\<rparr>"

definition example_settings :: settings where
  "example_settings =
     \<lparr>commandsConfig = [(''web'', web_config), (''db'', db_config)],
      defaultEnv = [''A'' \<mapsto> ''2'', ''B'' \<mapsto> ''x''],
      process_env = [''A'' \<mapsto> ''1'']\<rparr>"

text \<open>The same configuration under a system environment that defines \<^verbatim>\<open>HOME\<close> only.\<close>

definition home_settings :: settings where
  "home_settings = example_settings\<lparr>process_env := [''HOME'' \<mapsto> ''/root'']\<rparr>"

text \<open>Nothing runs, no pid file exists, and every spawn fails.\<close>

definition idle_world :: world where
  "idle_world =
     \<lparr>pidFiles = Map.empty, openFds = [], children = [], childProcesses = [],
      signalable = {}, signals = [], spawnResults = [], console = [],
      stdinResumed = False, exited = False\<rparr>"

text \<open>
  A pid file for \<^verbatim>\<open>web\<close> left by another invocation whose process 42 is alive, and the
  same file when process 42 is gone.
\<close>

definition foreign_world :: world where
  "foreign_world = idle_world\<lparr>pidFiles := [''web'' \<mapsto> ''42''], signalable := {42}\<rparr>"

definition stale_world :: world where
  "stale_world = idle_world\<lparr>pidFiles := [''web'' \<mapsto> ''42'']\<rparr>"



text \<open>
  Both commands were started by this invocation in attached mode and run as processes
  100 and 200; the next spawn will produce process 101.
\<close>

definition web_child :: child where
  "web_child = \<lparr>pid = Some 100, spawnfile = ''python'', spawnargs = [''2-y-''],
                 spawnenv = envVars example_settings web_config, detached = False,
                 handler_name = ''web'', handler_config = web_config, exit_seen = False\<rparr>"

definition db_child :: child where
  "db_child = \<lparr>pid = Some 200, spawnfile = ''postgres'', spawnargs = [],
                spawnenv = envVars example_settings db_config, detached = False,
                handler_name = ''db'', handler_config = db_config, exit_seen = False\<rparr>"

definition attached_world :: world where
  "attached_world =
     idle_world\<lparr>pidFiles := [''web'' \<mapsto> ''100'', ''db'' \<mapsto> ''200''],
                children := [web_child, db_child],
                childProcesses := [(''web'', 0), (''db'', 1)],
                signalable := {100, 200},
                spawnResults := [Some 101],
                stdinResumed := True\<rparr>"

section \<open>Evaluation lemmas\<close>

lemma parseInt_42: "parseInt ''42'' = Some 42"
  by (simp add: parseInt_def is_space_def is_digit_def digits_value_def digit_value_def)

lemma stale_world_record: "pidFiles stale_world ''web'' = Some ''42''"
  by (simp add: stale_world_def idle_world_def)

lemma stale_world_dead: "\<not> isRunning stale_world (parseInt ''42'')"
  by (simp add: parseInt_42 isRunning_def kill_succeeds_def stale_world_def idle_world_def)

lemma foreign_world_record: "pidFiles foreign_world ''web'' = Some ''42''"
  by (simp add: foreign_world_def idle_world_def)

lemma foreign_world_live: "isRunning foreign_world (parseInt ''42'')"
  by (simp add: parseInt_42 isRunning_def kill_succeeds_def foreign_world_def idle_world_def)

lemma example_services: "services example_settings None = [''web'', ''db'']"
  by (simp add: services_def Object_keys_def example_settings_def)


lemma example_web_config: "map_of (commandsConfig example_settings) ''web'' = Some web_config"
  by (simp add: example_settings_def)

lemma web_not_inherited: "\<not> inherited ''web''"
  by (simp add: inherited_def prototype_functions_def)

lemma db_not_inherited: "\<not> inherited ''db''"
  by (simp add: inherited_def prototype_functions_def)

lemma example_db_config: "map_of (commandsConfig example_settings) ''db'' = Some db_config"
  by (simp add: example_settings_def)

lemma parseInt_100: "parseInt ''100'' = Some 100"
  by (simp add: parseInt_def is_space_def is_digit_def digits_value_def digit_value_def)


lemma instances_console [simp]: "instances m (w\<lparr>console := cs\<rparr>) = instances m w"
  by (simp add: instances_def)

lemma kill_succeeds_console [simp]:
  "kill_succeeds (w\<lparr>console := cs\<rparr>) q = kill_succeeds w q"
  by (simp add: kill_succeeds_def split: option.splits)

section \<open>The pid store\<close>

text \<open>
  Claim C7. \<^verbatim>\<open>isProcessRunning\<close> is the liveness query that heals: when the pid file of a
  name holds a pid that the probe reports dead, the first call removes the file and
  answers that nothing runs, and a second call right after it gives the same answer and
  changes nothing.
\<close>

theorem isProcessRunning_heals_once:
  assumes "pidFiles w n = Some text" and "\<not> isRunning w (parseInt text)"
  shows "isProcessRunning n w = (False, w\<lparr>pidFiles := (pidFiles w)(n := None)\<rparr>)
       \<and> isProcessRunning n (snd (isProcessRunning n w)) = (False, snd (isProcessRunning n w))"
  using assms by (simp add: isProcessRunning_def unlinkSync_def)

theorem isProcessRunning_heals_once_witness:
  "pidFiles stale_world ''web'' = Some ''42'' \<and> \<not> isRunning stale_world (parseInt ''42'')
   \<and> isProcessRunning ''web'' stale_world
       = (False, stale_world\<lparr>pidFiles := (pidFiles stale_world)(''web'' := None)\<rparr>)
   \<and> isProcessRunning ''web'' (snd (isProcessRunning ''web'' stale_world))
       = (False, snd (isProcessRunning ''web'' stale_world))"
  using isProcessRunning_heals_once [OF stale_world_record stale_world_dead]
    stale_world_record stale_world_dead by blast

section \<open>Stop\<close>

text \<open>
  Claim C8. Stopping a name that has no pid file only prints that there is no pid file:
  no signal is sent and no other part of the state changes. The function returns
  normally, so a batch stop that reaches such a name goes on with the names after it.
\<close>

theorem stopProcess_not_running:
  assumes "pidFiles v n = None"
  shows "stopProcess n v = v\<lparr>console := console v @ [NoPidFile n]\<rparr>
       \<and> (\<forall>S name w before after.
            services S name = before @ n # after
            \<and> v = foldl (\<lambda>u serviceName. stopProcess serviceName u) w before
            \<longrightarrow> stopProcesses S name w
                = foldl (\<lambda>u serviceName. stopProcess serviceName u)
                    (v\<lparr>console := console v @ [NoPidFile n]\<rparr>) after)"
proof -
  have step: "stopProcess n v = v\<lparr>console := console v @ [NoPidFile n]\<rparr>"
    using assms by (simp add: stopProcess_def say_def)
  show ?thesis
    unfolding stopProcesses_def using step by auto
qed

theorem stopProcess_not_running_witness:
  "pidFiles idle_world ''web'' = None
   \<and> stopProcess ''web'' idle_world = idle_world\<lparr>console := console idle_world @ [NoPidFile ''web'']\<rparr>
   \<and> services example_settings None = [] @ ''web'' # [''db'']
   \<and> stopProcesses example_settings None idle_world
       = foldl (\<lambda>u serviceName. stopProcess serviceName u)
           (idle_world\<lparr>console := console idle_world @ [NoPidFile ''web'']\<rparr>) [''db'']"
proof -
  have a: "pidFiles idle_world ''web'' = None" by (simp add: idle_world_def)
  have b: "services example_settings None = [] @ ''web'' # [''db'']"
    by (simp add: example_services)
  have c: "idle_world = foldl (\<lambda>u serviceName. stopProcess serviceName u) idle_world []"
    by simp
  from stopProcess_not_running [OF a] b c show ?thesis using a by blast
qed

text \<open>
  Claim C2, as the code has it. When the termination signal cannot be delivered,
  \<^verbatim>\<open>process.kill\<close> throws before \<^verbatim>\<open>unlinkSync\<close> is reached: the failure is printed for that
  name and nothing else happens. The pid file stays, so a second stop of the name meets
  the same file and prints the same failure again.
\<close>

theorem stopProcess_signal_failure:
  assumes "pidFiles w n = Some text" and "\<not> kill_succeeds w (parseInt text)"
  shows "stopProcess n w = w\<lparr>console := console w @ [ErrorStopping n (parseInt text)]\<rparr>
       \<and> stopProcess n (stopProcess n w)
           = w\<lparr>console := console w @ [ErrorStopping n (parseInt text),
                                         ErrorStopping n (parseInt text)]\<rparr>"
proof -
  have step: "stopProcess n v = v\<lparr>console := console v @ [ErrorStopping n (parseInt text)]\<rparr>"
    if "pidFiles v n = Some text" and "\<not> kill_succeeds v (parseInt text)" for v
    using that by (cases "parseInt text") (simp_all add: stopProcess_def say_def)
  show ?thesis
    using assms step [of w]
      step [of "w\<lparr>console := console w @ [ErrorStopping n (parseInt text)]\<rparr>"]
    by simp
qed

theorem stopProcess_signal_failure_witness:
  "pidFiles stale_world ''web'' = Some ''42'' \<and> \<not> kill_succeeds stale_world (parseInt ''42'')
   \<and> stopProcess ''web'' stale_world
       = stale_world\<lparr>console := console stale_world @ [ErrorStopping ''web'' (parseInt ''42'')]\<rparr>"
proof -
  have b: "\<not> kill_succeeds stale_world (parseInt ''42'')"
    using stale_world_dead by (simp add: isRunning_def)
  from stopProcess_signal_failure [OF stale_world_record b] show ?thesis
    using stale_world_record b by blast
qed

text \<open>
  The claim as the specification states it fails: after a stop whose signal could not be
  delivered the pid file is still there, and the second stop reports the failure again.
\<close>

theorem stopProcess_keeps_record_counterexample:
  "pidFiles stale_world ''web'' = Some ''42''
   \<and> \<not> kill_succeeds stale_world (parseInt ''42'')
   \<and> pidFiles (stopProcess ''web'' stale_world) ''web'' = Some ''42''
   \<and> console (stopProcess ''web'' (stopProcess ''web'' stale_world))
       = [ErrorStopping ''web'' (Some 42), ErrorStopping ''web'' (Some 42)]"
  by (simp add: stopProcess_def say_def parseInt_42 kill_succeeds_def stale_world_def
      idle_world_def)

section \<open>Start\<close>




lemma spawn_failure_result:
  assumes "spawnResults w = [] \<or> hd (spawnResults w) = None"
  shows "spawn c w = (length (children w),
           w\<lparr>children := children w @ [c\<lparr>pid := None\<rparr>], spawnResults := tl (spawnResults w)\<rparr>)"
  using assms by (cases "spawnResults w") (auto simp add: spawn_def)

lemma isProcessRunning_not_running:
  assumes "\<not> fst (isProcessRunning n w)"
  shows "isProcessRunning n w = (False, w\<lparr>pidFiles := (pidFiles w)(n := None)\<rparr>)"
proof (cases "pidFiles w n")
  case None
  then have "(pidFiles w)(n := None) = pidFiles w" by auto
  with None show ?thesis by (simp add: isProcessRunning_def)
next
  case (Some t)
  with assms show ?thesis by (simp add: isProcessRunning_def unlinkSync_def split: if_splits)
qed

text \<open>
  Claim C10. When \<^verbatim>\<open>spawn\<close> yields no pid, \<^verbatim>\<open>startProcess\<close> prints the failure and writes
  no pid file, yet the \<^verbatim>\<open>ChildProcess\<close> object has been stored in \<^verbatim>\<open>childProcesses\<close>
  before the pid was looked at. A later start of the same name in this invocation
  therefore prints that the process is already running and spawns nothing, although no
  process was created and no pid file exists.
\<close>

theorem startProcess_spawn_failure:
  assumes "map_of (commandsConfig S) n = Some c" and "\<not> inherited n"
    and "map_of (childProcesses w) n = None"
    and "\<not> fst (isProcessRunning n w)"
    and "spawnResults w = [] \<or> hd (spawnResults w) = None"
  shows "let w1 = startProcess S n d w in
           pidFiles w1 n = None
         \<and> console w1 = console w @ [FailedToStart n]
         \<and> map_of (childProcesses w1) n = Some (length (children w))
         \<and> length (children w1) = Suc (length (children w))
         \<and> pid (children w1 ! length (children w)) = None
         \<and> signalable w1 = signalable w
         \<and> (\<forall>d'. startProcess S n d' w1 = w1\<lparr>console := console w1 @ [AlreadyRunning n]\<rparr>)"
proof -
  define w0 where "w0 = w\<lparr>pidFiles := (pidFiles w)(n := None)\<rparr>"
  define w1 where "w1 =
    w0\<lparr>openFds := openFds w0 @ [n, n],
       children := children w0 @ [\<lparr>pid = None, spawnfile = command c,
          spawnargs = substitutedArgs S c, spawnenv = envVars S c, detached = d,
          handler_name = n, handler_config = c, exit_seen = False\<rparr>],
       spawnResults := tl (spawnResults w0),
       childProcesses := AList.update n (length (children w0)) (childProcesses w0),
       console := console w0 @ [FailedToStart n]\<rparr>"
  have start: "startProcess S n d w = w1"
    using assms(1-3,5)
    by (simp add: startProcess_def get_property_def truthy_def
        isProcessRunning_not_running [OF assms(4)] spawn_failure_result
        say_def w1_def w0_def)
  have again: "startProcess S n d' w1 = w1\<lparr>console := console w1 @ [AlreadyRunning n]\<rparr>" for d'
    using assms(1)
    by (simp add: startProcess_def get_property_def truthy_def say_def w1_def update_conv')
  show ?thesis
    unfolding start Let_def using again
    by (simp add: w1_def w0_def update_conv')
qed

theorem startProcess_spawn_failure_witness:
  "map_of (commandsConfig example_settings) ''web'' = Some web_config \<and> \<not> inherited ''web''
   \<and> map_of (childProcesses idle_world) ''web'' = None
   \<and> \<not> fst (isProcessRunning ''web'' idle_world)
   \<and> (spawnResults idle_world = [] \<or> hd (spawnResults idle_world) = None)
   \<and> (let w1 = startProcess example_settings ''web'' False idle_world in
           pidFiles w1 ''web'' = None
         \<and> console w1 = console idle_world @ [FailedToStart ''web'']
         \<and> map_of (childProcesses w1) ''web'' = Some (length (children idle_world))
         \<and> length (children w1) = Suc (length (children idle_world))
         \<and> pid (children w1 ! length (children idle_world)) = None
         \<and> signalable w1 = signalable idle_world
         \<and> (\<forall>d'. startProcess example_settings ''web'' d' w1
                   = w1\<lparr>console := console w1 @ [AlreadyRunning ''web'']\<rparr>))"
proof -
  have a: "map_of (childProcesses idle_world) ''web'' = None" by (simp add: idle_world_def)
  have b: "\<not> fst (isProcessRunning ''web'' idle_world)"
    by (simp add: isProcessRunning_def idle_world_def)
  have c: "spawnResults idle_world = [] \<or> hd (spawnResults idle_world) = None"
    by (simp add: idle_world_def)
  from startProcess_spawn_failure [OF example_web_config web_not_inherited a b c, of False]
  show ?thesis
    using example_web_config web_not_inherited a b c by blast
qed

section \<open>The interrupt listener\<close>

lemma stopProcess_signalable: "signalable (stopProcess m w) = signalable w"
  by (simp add: stopProcess_def say_def unlinkSync_def child_kill_def Let_def
      split: option.splits property.splits)

lemma stopProcess_pidFiles_other: "m \<noteq> n \<Longrightarrow> pidFiles (stopProcess m w) n = pidFiles w n"
  by (simp add: stopProcess_def say_def unlinkSync_def child_kill_def Let_def
      split: option.splits property.splits)

lemma stopProcess_childProcesses_other:
  "m \<noteq> n \<Longrightarrow> map_of (childProcesses (stopProcess m w)) n = map_of (childProcesses w) n"
  by (simp add: stopProcess_def say_def unlinkSync_def child_kill_def Let_def
      split: option.splits property.splits)

lemma stopProcess_pidFiles_None: "pidFiles w n = None \<Longrightarrow> pidFiles (stopProcess m w) n = None"
  by (simp add: stopProcess_def say_def unlinkSync_def child_kill_def Let_def
      split: option.splits property.splits)

lemma stopProcess_signals_mono: "set (signals w) \<subseteq> set (signals (stopProcess m w))"
  by (auto simp add: stopProcess_def say_def unlinkSync_def child_kill_def Let_def
      split: option.splits property.splits)

lemma stopProcess_live:
  assumes "pidFiles w n = Some content" and "parseInt content = Some p" and "kill_succeeds w (Some p)"
  shows "pidFiles (stopProcess n w) n = None \<and> (p, SIGTERM) \<in> set (signals (stopProcess n w))"
  using assms
  by (simp add: stopProcess_def say_def unlinkSync_def child_kill_def Let_def
      split: option.splits property.splits)

lemma stop_loop_other:
  "n \<notin> set ns \<Longrightarrow>
     pidFiles (foldl (\<lambda>u serviceName. stopProcess serviceName u) w ns) n = pidFiles w n
   \<and> map_of (childProcesses (foldl (\<lambda>u serviceName. stopProcess serviceName u) w ns)) n
       = map_of (childProcesses w) n"
  by (induction ns arbitrary: w)
     (auto simp add: stopProcess_pidFiles_other stopProcess_childProcesses_other)

lemma stop_loop_None:
  "pidFiles w n = None \<Longrightarrow>
     pidFiles (foldl (\<lambda>u serviceName. stopProcess serviceName u) w ns) n = None"
  by (induction ns arbitrary: w) (auto simp add: stopProcess_pidFiles_None)

lemma stop_loop_signals_mono:
  "set (signals w) \<subseteq> set (signals (foldl (\<lambda>u serviceName. stopProcess serviceName u) w ns))"
proof (induction ns arbitrary: w)
  case Nil
  show ?case by simp
next
  case (Cons m ms)
  show ?case using stopProcess_signals_mono [of w m] Cons [of "stopProcess m w"] by auto
qed

lemma stop_loop_live:
  assumes "n \<in> set ns" and "pidFiles w n = Some content" and "parseInt content = Some p"
    and "kill_succeeds w (Some p)"
  shows "pidFiles (foldl (\<lambda>u serviceName. stopProcess serviceName u) w ns) n = None
       \<and> (p, SIGTERM) \<in> set (signals (foldl (\<lambda>u serviceName. stopProcess serviceName u) w ns))"
  using assms
proof (induction ns arbitrary: w)
  case Nil
  then show ?case by simp
next
  case (Cons m ms)
  show ?case
  proof (cases "m = n")
    case True
    have "pidFiles (stopProcess n w) n = None"
      and "(p, SIGTERM) \<in> set (signals (stopProcess n w))"
      using stopProcess_live [OF Cons.prems(2-4)] by simp_all
    then show ?thesis
      using True stop_loop_None [of "stopProcess n w" n ms]
        stop_loop_signals_mono [of "stopProcess n w" ms]
      by auto
  next
    case False
    have "kill_succeeds (stopProcess m w) (Some p)"
      using Cons.prems(4) by (simp add: kill_succeeds_def stopProcess_signalable)
    moreover have "pidFiles (stopProcess m w) n = Some content"
      using False Cons.prems(2) by (simp add: stopProcess_pidFiles_other)
    moreover have "n \<in> set ms" using False Cons.prems(1) by simp
    ultimately show ?thesis
      using Cons.IH [of "stopProcess m w"] Cons.prems(3) by simp
  qed
qed

text \<open>
  Claim C1, as the code has it. The \<^verbatim>\<open>SIGINT\<close> listener calls \<^verbatim>\<open>stopProcesses()\<close> without
  a name, which stops every name of the configuration whether or not \<^verbatim>\<open>childProcesses\<close>
  holds it: a defined name whose pid file names a process that accepts the signal is
  signalled and loses its pid file. Names outside the configuration keep their pid file
  and their \<^verbatim>\<open>childProcesses\<close> entry. Then the process exits.
\<close>

theorem sigint_stops_defined_names:
  "(n \<notin> set (Object_keys (commandsConfig S)) \<longrightarrow>
      pidFiles (sigint S w) n = pidFiles w n
    \<and> map_of (childProcesses (sigint S w)) n = map_of (childProcesses w) n)
   \<and> (n \<in> set (Object_keys (commandsConfig S)) \<and> pidFiles w n = Some content
      \<and> parseInt content = Some p \<and> kill_succeeds w (Some p) \<longrightarrow>
        pidFiles (sigint S w) n = None \<and> (p, SIGTERM) \<in> set (signals (sigint S w)))
   \<and> exited (sigint S w)"
proof -
  let ?v = "say ShuttingDown w"
  have v: "pidFiles ?v = pidFiles w" "childProcesses ?v = childProcesses w"
    "kill_succeeds ?v (Some p) = kill_succeeds w (Some p)"
    by (simp_all add: say_def)
  show ?thesis
    using stop_loop_other [of n "Object_keys (commandsConfig S)" ?v]
      stop_loop_live [of n "Object_keys (commandsConfig S)" ?v content p]
    by (auto simp add: sigint_def stopProcesses_def services_def v)
qed

theorem sigint_stops_defined_names_witness:
  "''cache'' \<notin> set (Object_keys (commandsConfig example_settings))
   \<and> pidFiles (sigint example_settings foreign_world) ''cache'' = pidFiles foreign_world ''cache''
   \<and> ''web'' \<in> set (Object_keys (commandsConfig example_settings))
   \<and> pidFiles foreign_world ''web'' = Some ''42'' \<and> parseInt ''42'' = Some 42
   \<and> kill_succeeds foreign_world (Some 42)
   \<and> pidFiles (sigint example_settings foreign_world) ''web'' = None
   \<and> (42, SIGTERM) \<in> set (signals (sigint example_settings foreign_world))"
proof -
  have a: "''cache'' \<notin> set (Object_keys (commandsConfig example_settings))"
    by (simp add: Object_keys_def example_settings_def)
  have b: "''web'' \<in> set (Object_keys (commandsConfig example_settings))"
    by (simp add: Object_keys_def example_settings_def)
  have c: "kill_succeeds foreign_world (Some 42)"
    using foreign_world_live by (simp add: isRunning_def parseInt_42)
  from sigint_stops_defined_names [where n = "''cache''" and S = example_settings
      and w = foreign_world]
    sigint_stops_defined_names [where n = "''web''" and S = example_settings
      and w = foreign_world and content = "''42''" and p = 42]
  show ?thesis
    using a b c foreign_world_record parseInt_42 by blast
qed

text \<open>
  The claim as the specification states it fails: \<^verbatim>\<open>web\<close> is not held in
  \<^verbatim>\<open>childProcesses\<close>, and the listener signals its process and removes its pid file.
\<close>

theorem sigint_counterexample:
  "map_of (childProcesses foreign_world) ''web'' = None
   \<and> pidFiles foreign_world ''web'' = Some ''42''
   \<and> pidFiles (sigint example_settings foreign_world) ''web'' = None
   \<and> signals (sigint example_settings foreign_world) = [(42, SIGTERM)]"
  by (simp add: sigint_def stopProcesses_def example_services stopProcess_def say_def
      unlinkSync_def parseInt_42 kill_succeeds_def get_property_def inherited_def
      prototype_functions_def foreign_world_def idle_world_def)


section \<open>Exit and restart\<close>

lemma unlink_if_exists:
  "(if pidFiles w n \<noteq> None then unlinkSync n w else w) = w\<lparr>pidFiles := (pidFiles w)(n := None)\<rparr>"
proof (cases "pidFiles w n")
  case None
  then have "(pidFiles w)(n := None) = pidFiles w" by auto
  with None show ?thesis by simp
next
  case (Some t)
  then show ?thesis by (simp add: unlinkSync_def)
qed

lemma child_exit_eq:
  assumes "i < length (children w)" and "pid (children w ! i) = Some p"
    and "\<not> exit_seen (children w ! i)"
  shows "child_exit S i code sig w =
     Some (if restart_on_fail (handler_config (children w ! i)) = Some True
           then startProcess S (handler_name (children w ! i)) (detached (children w ! i))
                  (say (Restarting (handler_name (children w ! i))) (after_exit i code sig w))
           else after_exit i code sig w)"
proof -
  let ?n = "handler_name (children w ! i)"
  let ?w0 = "w\<lparr>children := (children w)[i := (children w ! i)\<lparr>exit_seen := True\<rparr>],
                signalable := signalable w - {p}\<rparr>"
  have c: "children ?w0 ! i = (children w ! i)\<lparr>exit_seen := True\<rparr>"
    using assms(1) by simp
  have "exit_listener S i code sig ?w0 =
     (if restart_on_fail (handler_config (children w ! i)) = Some True
      then startProcess S ?n (detached (children w ! i))
             (say (Restarting ?n) (after_exit i code sig w))
      else after_exit i code sig w)"
    unfolding exit_listener_def Let_def unlink_if_exists c
    using assms(2) by (simp add: say_def after_exit_def Let_def)
  then show ?thesis using assms by (simp add: child_exit_def)
qed

lemma startProcess_fresh:
  assumes "map_of (commandsConfig S) n = Some c" and "\<not> inherited n"
    and "map_of (childProcesses w) n = None"
    and "\<not> fst (isProcessRunning n w)"
  shows "startProcess S n d w = spawned S n d c w"
  using assms(1-3)
  by (cases "spawnResults w"; cases "hd (spawnResults w)")
     (simp_all add: startProcess_def get_property_def truthy_def
        isProcessRunning_not_running [OF assms(4)] spawn_def say_def spawned_def Let_def)

text \<open>
  Claim C4. When the exit of a child is observed and the definition its listener closed
  over has \<^verbatim>\<open>restart_on_fail\<close> set, the listener removes the pid file, deletes the
  \<^verbatim>\<open>childProcesses\<close> entry and calls \<^verbatim>\<open>startProcess\<close> for the same name with the detach
  flag of the original start. Neither the exit code nor the signal is looked at, nothing
  delays or counts the restarts, and for a name of the configuration the call gets as far
  as \<^verbatim>\<open>spawn\<close>.
\<close>

theorem child_exit_restarts:
  assumes "i < length (children w)" and "pid (children w ! i) = Some p"
    and "\<not> exit_seen (children w ! i)"
    and "restart_on_fail (handler_config (children w ! i)) = Some True"
    and "handler_name (children w ! i) = n"
  shows "child_exit S i code sig w =
           Some (startProcess S n (detached (children w ! i))
                   (say (Restarting n) (after_exit i code sig w)))
       \<and> pidFiles (after_exit i code sig w) n = None
       \<and> map_of (childProcesses (after_exit i code sig w)) n = None
       \<and> (map_of (commandsConfig S) n = Some c \<and> \<not> inherited n \<longrightarrow>
            child_exit S i code sig w =
              Some (spawned S n (detached (children w ! i)) c
                      (say (Restarting n) (after_exit i code sig w))))"
proof -
  let ?v = "say (Restarting n) (after_exit i code sig w)"
  have a: "pidFiles (after_exit i code sig w) n = None"
    and b: "map_of (childProcesses (after_exit i code sig w)) n = None"
    using assms(5) by (simp_all add: after_exit_def delete_conv')
  have e: "child_exit S i code sig w =
           Some (startProcess S n (detached (children w ! i)) ?v)"
    using child_exit_eq [OF assms(1-3)] assms(4,5) by simp
  have "\<not> fst (isProcessRunning n ?v)"
    using a by (simp add: isProcessRunning_def say_def)
  moreover have "map_of (childProcesses ?v) n = None"
    using b by (simp add: say_def)
  ultimately have "map_of (commandsConfig S) n = Some c \<and> \<not> inherited n \<longrightarrow>
      startProcess S n (detached (children w ! i)) ?v
        = spawned S n (detached (children w ! i)) c ?v"
    using startProcess_fresh [of S n c ?v] by blast
  with a b e show ?thesis by simp
qed


theorem child_exit_restarts_witness:
  "1 < length (children attached_world) \<and> pid (children attached_world ! 1) = Some 200
   \<and> \<not> exit_seen (children attached_world ! 1)
   \<and> restart_on_fail (handler_config (children attached_world ! 1)) = Some True
   \<and> handler_name (children attached_world ! 1) = ''db''
   \<and> map_of (commandsConfig example_settings) ''db'' = Some db_config \<and> \<not> inherited ''db''
   \<and> child_exit example_settings 1 (Some 0) None attached_world =
       Some (spawned example_settings ''db'' (detached (children attached_world ! 1)) db_config
               (say (Restarting ''db'') (after_exit 1 (Some 0) None attached_world)))"
proof -
  have a: "1 < length (children attached_world)"
    and b: "pid (children attached_world ! 1) = Some 200"
    and c: "\<not> exit_seen (children attached_world ! 1)"
    and d: "restart_on_fail (handler_config (children attached_world ! 1)) = Some True"
    and e: "handler_name (children attached_world ! 1) = ''db''"
    by (simp_all add: attached_world_def idle_world_def db_child_def db_config_def)
  from child_exit_restarts [OF a b c d e, of example_settings "Some 0" None db_config]
  show ?thesis
    using a b c d e example_db_config db_not_inherited by blast
qed

lemma stopProcess_attached:
  assumes "pidFiles w n = Some content" and "parseInt content = Some p"
    and "kill_succeeds w (Some p)" and "map_of (childProcesses w) n = Some i"
  shows "pidFiles (stopProcess n w) n = None"
    and "map_of (childProcesses (stopProcess n w)) n = None"
    and "children (stopProcess n w) = children w"
    and "spawnResults (stopProcess n w) = spawnResults w"
    and "signalable (stopProcess n w) = signalable w"
  using assms
  by (simp_all add: stopProcess_def get_property_def say_def unlinkSync_def child_kill_def
      Let_def delete_conv' split: option.splits)

text \<open>
  Claim C9. The \<^verbatim>\<open>exit\<close> listener removes the pid file of its name without comparing the
  pid stored there with the pid of the child that exited. After a restart in the same
  invocation the pid file holds the pid of the new instance; when the exit of the old
  instance is then observed, its listener deletes that file and the \<^verbatim>\<open>childProcesses\<close>
  entry of the new instance, while the new process is still alive.
\<close>

theorem stale_exit_removes_fresh_record:
  assumes "map_of (commandsConfig S) n = Some c" and "\<not> inherited n" and "n \<noteq> []"
    and "map_of (childProcesses w) n = Some i" and "i < length (children w)"
    and "pid (children w ! i) = Some p" and "\<not> exit_seen (children w ! i)"
    and "handler_name (children w ! i) = n"
    and "pidFiles w n = Some content" and "parseInt content = Some p"
    and "kill_succeeds w (Some p)"
    and "spawnResults w = Some q # rs" and "q \<noteq> p"
  shows "let w1 = restartProcesses S (Some n) d w; wc = after_exit i code sig w1 in
           pidFiles w1 n = Some (toString q)
         \<and> map_of (childProcesses w1) n = Some (length (children w))
         \<and> pid (children w1 ! length (children w)) = Some q
         \<and> q \<in> signalable w1
         \<and> child_exit S i code sig w1 =
             Some (if restart_on_fail (handler_config (children w ! i)) = Some True
                   then startProcess S n (detached (children w ! i)) (say (Restarting n) wc)
                   else wc)
         \<and> pidFiles wc n = None
         \<and> map_of (childProcesses wc) n = None
         \<and> q \<in> signalable wc"
proof -
  define ws where "ws = stopProcess n w"
  define w1 where "w1 = spawned S n d c ws"
  note st = stopProcess_attached [OF assms(9,10,11,4), folded ws_def]
  have "\<not> fst (isProcessRunning n ws)"
    using st(1) by (simp add: isProcessRunning_def)
  then have "startProcess S n d ws = w1"
    using startProcess_fresh [OF assms(1,2) st(2)] by (simp add: w1_def)
  then have r: "restartProcesses S (Some n) d w = w1"
    using assms(3) by (simp add: restartProcesses_def services_def ws_def)
  have f: "pidFiles w1 n = Some (toString q)"
    "map_of (childProcesses w1) n = Some (length (children w))"
    "children w1 = children w @
       [\<lparr>pid = Some q, spawnfile = command c, spawnargs = substitutedArgs S c,
         spawnenv = envVars S c, detached = d, handler_name = n,
         handler_config = c, exit_seen = False\<rparr>]"
    "signalable w1 = insert q (signalable w)"
    using assms(12) st(3-5) by (simp_all add: w1_def spawned_def Let_def update_conv')
  have old: "children w1 ! i = children w ! i" "i < length (children w1)"
    using assms(5) by (simp_all add: f(3) nth_append)
  have ex: "child_exit S i code sig w1 =
     Some (if restart_on_fail (handler_config (children w ! i)) = Some True
           then startProcess S n (detached (children w ! i))
                  (say (Restarting n) (after_exit i code sig w1))
           else after_exit i code sig w1)"
    using child_exit_eq [of i w1 p S code sig] old assms(6,7,8) by simp
  have wc: "pidFiles (after_exit i code sig w1) n = None"
    "map_of (childProcesses (after_exit i code sig w1)) n = None"
    "q \<in> signalable (after_exit i code sig w1)"
    using old assms(6,8,13) by (simp_all add: after_exit_def Let_def delete_conv' f(4))
  show ?thesis
    unfolding r Let_def using f(1,2,4) ex wc by (simp add: f(3))
qed

theorem stale_exit_removes_fresh_record_witness:
  "map_of (commandsConfig example_settings) ''web'' = Some web_config \<and> \<not> inherited ''web''
   \<and> ''web'' \<noteq> [] \<and> map_of (childProcesses attached_world) ''web'' = Some 0
   \<and> 0 < length (children attached_world) \<and> pid (children attached_world ! 0) = Some 100
   \<and> \<not> exit_seen (children attached_world ! 0)
   \<and> handler_name (children attached_world ! 0) = ''web''
   \<and> pidFiles attached_world ''web'' = Some ''100'' \<and> parseInt ''100'' = Some 100
   \<and> kill_succeeds attached_world (Some 100)
   \<and> spawnResults attached_world = Some 101 # [] \<and> (101 :: int) \<noteq> 100
   \<and> (let w1 = restartProcesses example_settings (Some ''web'') False attached_world;
           wc = after_exit 0 None (Some ''SIGTERM'') w1 in
           pidFiles w1 ''web'' = Some (toString 101)
         \<and> map_of (childProcesses w1) ''web'' = Some (length (children attached_world))
         \<and> pid (children w1 ! length (children attached_world)) = Some 101
         \<and> 101 \<in> signalable w1
         \<and> child_exit example_settings 0 None (Some ''SIGTERM'') w1 =
             Some (if restart_on_fail (handler_config (children attached_world ! 0)) = Some True
                   then startProcess example_settings ''web''
                          (detached (children attached_world ! 0)) (say (Restarting ''web'') wc)
                   else wc)
         \<and> pidFiles wc ''web'' = None
         \<and> map_of (childProcesses wc) ''web'' = None
         \<and> 101 \<in> signalable wc)"
proof -
  have a: "''web'' \<noteq> []" by simp
  have b: "map_of (childProcesses attached_world) ''web'' = Some 0"
    and c: "0 < length (children attached_world)"
    and d: "pid (children attached_world ! 0) = Some 100"
    and e: "\<not> exit_seen (children attached_world ! 0)"
    and f: "handler_name (children attached_world ! 0) = ''web''"
    and g: "pidFiles attached_world ''web'' = Some ''100''"
    and h: "kill_succeeds attached_world (Some 100)"
    and i: "spawnResults attached_world = Some 101 # []"
    by (simp_all add: attached_world_def idle_world_def web_child_def kill_succeeds_def)
  have j: "(101 :: int) \<noteq> 100" by simp
  from stale_exit_removes_fresh_record [OF example_web_config web_not_inherited a b c d e f g
      parseInt_100 h i j, of False None "Some ''SIGTERM''"]
  show ?thesis
    using example_web_config web_not_inherited a b c d e f g parseInt_100 h i j by blast
qed

section \<open>Environment resolution and inspection\<close>

lemma envVars_layers:
  "envVars S c k =
     (case (case env c of None \<Rightarrow> Map.empty | Some e \<Rightarrow> e) k of
        Some v \<Rightarrow> Some v
      | None \<Rightarrow> (case defaultEnv S k of Some v \<Rightarrow> Some v | None \<Rightarrow> process_env S k))"
  by (simp add: envVars_def map_add_def split: option.splits)

lemma env_get_absent: "e k = None \<Longrightarrow> \<not> inherited k \<Longrightarrow> env_get e k = []"
  by (simp add: env_get_def)

text \<open>
  The example of the specification: system environment \<^verbatim>\<open>{A: "1"}\<close>, global environment
  \<^verbatim>\<open>{A: "2", B: "x"}\<close>, process environment \<^verbatim>\<open>{B: "y"}\<close>.
\<close>

lemma resolve_example: "substitutedArgs example_settings web_config = [''2-y-'']"
  by code_simp

text \<open>
  Claim C5, evaluated where the code departs from it. The three layers are merged with
  the later layer winning (\<open>envVars_layers\<close>), the example resolves to \<^verbatim>\<open>2-y-\<close>
  (\<open>resolve_example\<close>), and a name that is absent from the merged environment is replaced by
  the empty string unless \<^verbatim>\<open>Object.prototype\<close> has a property of that name
  (\<open>env_get_absent\<close>). For such a name \<^verbatim>\<open>envVars[varName]\<close> is the inherited value, which is
  truthy, and its text is substituted: no layer defines \<^verbatim>\<open>constructor\<close>, and
  \<^verbatim>\<open>${constructor}\<close> does not resolve to the empty string.
\<close>

theorem substitute_inherited_name:
  "substitutedArgs example_settings (web_config\<lparr>args := Some [''${constructor}'']\<rparr>)
     = [''function Object() { [native code] }'']"
  by code_simp

text \<open>
  Claim C3, as the code has it. For a name of the configuration \<^verbatim>\<open>inspectProcess\<close> prints a
  record whose \<^verbatim>\<open>combinedEnv\<close> is the global environment overridden by the environment of
  the command. The system environment is not merged in: a variable is reported with the
  value it has at start when one of these two layers defines it, and is not reported
  otherwise.
\<close>

theorem inspection_combinedEnv:
  assumes "map_of (commandsConfig S) n = Some c"
  shows "i_combinedEnv (inspection S n w)
           = defaultEnv S ++ (case env c of None \<Rightarrow> Map.empty | Some e \<Rightarrow> e)
       \<and> console (inspectProcess S n w) = console w @ [Inspection (inspection S n w)]
       \<and> (\<forall>k. i_combinedEnv (inspection S n w) k
               = (if k \<in> dom (defaultEnv S) \<union> dom (case env c of None \<Rightarrow> Map.empty | Some e \<Rightarrow> e)
                  then envVars S c k else None))"
proof -
  have a: "i_combinedEnv (inspection S n w)
           = defaultEnv S ++ (case env c of None \<Rightarrow> Map.empty | Some e \<Rightarrow> e)"
    using assms by (simp add: inspection_def get_property_def Let_def)
  have b: "console (inspectProcess S n w) = console w @ [Inspection (inspection S n w)]"
    using assms
    by (simp add: inspectProcess_def get_property_def truthy_def say_def isProcessRunning_def
        unlinkSync_def split: option.splits)
  have c: "(defaultEnv S ++ pe) k = (if k \<in> dom (defaultEnv S) \<union> dom pe
      then (process_env S ++ defaultEnv S ++ pe) k else None)" for pe k
    by (auto simp add: map_add_def split: option.splits)
  show ?thesis using a b c by (simp add: envVars_def)
qed

theorem inspection_combinedEnv_witness:
  "map_of (commandsConfig example_settings) ''web'' = Some web_config
   \<and> i_combinedEnv (inspection example_settings ''web'' idle_world)
       = defaultEnv example_settings ++ (case env web_config of None \<Rightarrow> Map.empty | Some e \<Rightarrow> e)
   \<and> console (inspectProcess example_settings ''web'' idle_world)
       = console idle_world @ [Inspection (inspection example_settings ''web'' idle_world)]"
  using inspection_combinedEnv [OF example_web_config, of idle_world] example_web_config
  by blast

text \<open>
  The claim as the specification states it fails: \<^verbatim>\<open>HOME\<close> is defined by the system
  environment alone, the process is spawned with it, and the inspection does not report
  it.
\<close>

theorem inspect_omits_system_env_counterexample:
  "map_of (commandsConfig home_settings) ''web'' = Some web_config
   \<and> spawnenv (last (children (startProcess home_settings ''web'' False idle_world))) ''HOME''
       = Some ''/root''
   \<and> i_combinedEnv (inspection home_settings ''web'' idle_world) ''HOME'' = None"
  by (simp add: home_settings_def example_settings_def startProcess_def get_property_def
      truthy_def web_not_inherited isProcessRunning_def spawn_def say_def envVars_def
      inspection_def web_config_def idle_world_def Let_def)

end
